theory Spec2Isabelle
  imports Main "HOL-Library.AList"
begin

section \<open>CharacterModal: the state of the component and its event handlers\<close>

text \<open>
  The component \<^verbatim>\<open>CharacterModal.jsx\<close> keeps nine pieces of state (React
  \<^verbatim>\<open>useState\<close> hooks) and changes them in event handlers. Each handler is embedded
  as a function from the state before the event to the outcome of the call: the state
  after it, or an error. JavaScript numbers are modelled as integers, with \<open>None\<close> for
  \<^verbatim>\<open>NaN\<close> where the source can produce it; \<^verbatim>\<open>null\<close> is \<open>None\<close>.
\<close>

subsection \<open>Data\<close>

text \<open>The error kinds the specification names (section 7).\<close>

datatype error = InvalidInput | CapacityExceeded | IndexOutOfRange

text \<open>A technique (hissatsu) as the picker renders it.\<close>

record technique =
  h_id :: int
  h_name :: string
  h_icon :: string
  h_description :: string
  h_type :: string

text \<open>An equipment item; \<open>e_stats\<close> is the object of per-stat bonuses.\<close>

record equipment =
  e_id :: int
  e_name :: string
  e_icon :: string
  e_category :: string
  e_rarity :: string
  e_stats :: "(string \<times> int) list"

text \<open>
  A character of \<^verbatim>\<open>allCharacters\<close>. \<open>hissatsu\<close> may be missing
  (\<^verbatim>\<open>character.hissatsu || []\<close>), hence the option.
\<close>

record character =
  c_id :: int
  c_name :: string
  nickname :: string
  title :: string
  position :: string
  jerseyNumber :: int
  baseLevel :: int
  baseRarity :: string
  baseStats :: "(string \<times> int \<times> int) list"
  teamPassives :: "string list"
  hissatsu :: "technique list option"

text \<open>
  A slot of a JavaScript array: an empty slot (a hole, which a write beyond the end of
  the array leaves behind and which \<^verbatim>\<open>map\<close> skips), the value \<^verbatim>\<open>undefined\<close>, or
  an element.
\<close>

datatype 'a entry = Hole | Undefined | Item 'a

text \<open>
  The state of the component. \<open>selectedEquipment\<close> is a JavaScript object: an
  association list from property name to value, in insertion order (the category
  names are not array indices, and for such property names JavaScript keeps the
  order of insertion), a value being an item or \<^verbatim>\<open>null\<close>. \<open>selectedHissatsu\<close> is a
  JavaScript array of techniques, slot by slot. \<open>toasts\<close> collects the messages
  handed to \<^verbatim>\<open>toast.success\<close>.
\<close>

record ui_state =
  currentCharacterIndex :: "int option"
  userLevel :: int
  userRarity :: string
  selectedEquipment :: "(string \<times> equipment option) list"
  selectedHissatsu :: "technique entry list"
  showEquipmentList :: bool
  showHissatsuList :: bool
  selectedCategory :: "string option"
  hissatsuSlotIndex :: "int option"
  toasts :: "string list"

subsection \<open>JavaScript primitives the handlers use\<close>

text \<open>
  \<^verbatim>\<open>a % b\<close> on integers: the remainder of the truncated division, with the sign of
  the dividend; \<^verbatim>\<open>NaN\<close> when the divisor is zero.
\<close>

definition js_rem :: "int \<Rightarrow> int \<Rightarrow> int option" where
  "js_rem a b = (if b = 0 then None else Some (sgn a * (\<bar>a\<bar> mod \<bar>b\<bar>)))"

text \<open>\<^verbatim>\<open>xs.findIndex(p)\<close>: the first index whose entry satisfies \<open>p\<close>, or \<open>-1\<close>.\<close>

fun findIndex :: "('a \<Rightarrow> bool) \<Rightarrow> 'a list \<Rightarrow> int" where
  "findIndex p [] = - 1"
| "findIndex p (x # xs) =
     (if p x then 0 else (let r = findIndex p xs in if r < 0 then - 1 else r + 1))"

text \<open>
  \<^verbatim>\<open>xs[i]\<close> read: \<^verbatim>\<open>undefined\<close> (\<open>None\<close>) outside the array and at \<^verbatim>\<open>NaN\<close>.
\<close>

definition js_index :: "'a list \<Rightarrow> int option \<Rightarrow> 'a option" where
  "js_index xs idx =
     (case idx of
        None \<Rightarrow> None
      | Some i \<Rightarrow> if 0 \<le> i \<and> i < int (length xs) then Some (xs ! nat i) else None)"

text \<open>
  The value that reading a slot gives: \<^verbatim>\<open>undefined\<close> (\<open>None\<close>) for an empty slot
  as for a slot that holds \<^verbatim>\<open>undefined\<close>.
\<close>

fun entry_value :: "'a entry \<Rightarrow> 'a option" where
  "entry_value Hole = None"
| "entry_value Undefined = None"
| "entry_value (Item v) = Some v"

text \<open>
  \<^verbatim>\<open>[...xs]\<close>: the copy that the spread makes. The array iterator reads every index
  up to the length, so an empty slot of \<open>xs\<close> is a slot holding \<^verbatim>\<open>undefined\<close> in
  the copy; the copy has no empty slot.
\<close>

fun spread_entry :: "'a entry \<Rightarrow> 'a entry" where
  "spread_entry Hole = Undefined"
| "spread_entry Undefined = Undefined"
| "spread_entry (Item v) = Item v"

definition js_spread :: "'a entry list \<Rightarrow> 'a entry list" where
  "js_spread xs = map spread_entry xs"

text \<open>
  \<^verbatim>\<open>xs[i] = v\<close> on an array, for an integer \<open>i\<close>. An array index is an integer from
  \<open>0\<close> to \<open>2^32 - 2\<close>. Inside the array the slot is overwritten. At an array index at
  or beyond the length JavaScript extends the array up to index \<open>i\<close>, leaving the
  slots in between empty. An integer that is not an array index (a negative one, or
  one from \<open>2^32 - 1\<close> on) names an ordinary property: the slots and the length stay
  as they are.
\<close>

definition js_array_set :: "'a entry list \<Rightarrow> int \<Rightarrow> 'a \<Rightarrow> 'a entry list" where
  "js_array_set xs i v =
     (if i < 0 \<or> 4294967295 \<le> i then xs
      else if nat i < length xs then xs[nat i := Item v]
      else xs @ replicate (nat i - length xs) Hole @ [Item v])"

text \<open>
  \<^verbatim>\<open>xs.splice(i, 1)\<close> on an array without empty slots (the handler calls it on a
  spread copy), for an integer \<open>i\<close>: a negative start
  counts from the end (and stops at 0), a start beyond the end is the length; one entry
  is deleted there unless none is left.
\<close>

definition js_splice1 :: "'a list \<Rightarrow> int \<Rightarrow> 'a list" where
  "js_splice1 xs i =
     (let len = int (length xs);
          start = (if i < 0 then max (len + i) 0 else min i len);
          deleteCount = min 1 (len - start)
      in take (nat start) xs @ drop (nat (start + deleteCount)) xs)"

text \<open>A property name computed from a state value: \<^verbatim>\<open>null\<close> becomes \<^verbatim>\<open>"null"\<close>.\<close>

definition property_key :: "string option \<Rightarrow> string" where
  "property_key c = (case c of None \<Rightarrow> ''null'' | Some k \<Rightarrow> k)"

subsection \<open>Initial state\<close>

text \<open>The object literal of the four empty equipment slots.\<close>

definition empty_equipment :: "(string \<times> equipment option) list" where
  "empty_equipment =
     [(''boots'', None), (''bracelet'', None), (''pendant'', None), (''special'', None)]"

text \<open>The \<^verbatim>\<open>useState\<close> initialisers, for the props \<open>character\<close> and \<open>allCharacters\<close>.\<close>

definition initial_state :: "character \<Rightarrow> character list \<Rightarrow> ui_state" where
  "initial_state ch allCharacters =
     \<lparr> currentCharacterIndex = Some (findIndex (\<lambda>c. c_id c = c_id ch) allCharacters),
       userLevel = baseLevel ch,
       userRarity = baseRarity ch,
       selectedEquipment = empty_equipment,
       selectedHissatsu = (case hissatsu ch of None \<Rightarrow> [] | Some hs \<Rightarrow> map Item hs),
       showEquipmentList = False,
       showHissatsuList = False,
       selectedCategory = None,
       hissatsuSlotIndex = None,
       toasts = [] \<rparr>"

text \<open>\<^verbatim>\<open>const currentCharacter = allCharacters[currentCharacterIndex]\<close>\<close>

definition currentCharacter :: "character list \<Rightarrow> ui_state \<Rightarrow> character option" where
  "currentCharacter allCharacters s = js_index allCharacters (currentCharacterIndex s)"

subsection \<open>Event handlers\<close>

text \<open>
  No handler of the component throws or returns an error value: every path through
  every handler ends normally, which the embedding records as \<open>Inr\<close> of the new state.
\<close>

text \<open>
  \<^verbatim>\<open>navigateCharacter(direction)\<close>: the new index, then the reset of level, rarity
  and equipment. Every direction other than \<^verbatim>\<open>'next'\<close> goes backward.
\<close>

definition navigateCharacter :: "character list \<Rightarrow> string \<Rightarrow> ui_state \<Rightarrow> error + ui_state" where
  "navigateCharacter allCharacters direction s =
     (let n = int (length allCharacters);
          newIndex =
            (case currentCharacterIndex s of
               None \<Rightarrow> None
             | Some i \<Rightarrow>
                 if direction = ''next'' then js_rem (i + 1) n else js_rem (i - 1 + n) n)
      in Inr (s\<lparr> currentCharacterIndex := newIndex,
                 userLevel := 99,
                 userRarity := ''Legendary'',
                 selectedEquipment := empty_equipment \<rparr>))"

text \<open>A run of navigation clicks, one direction per click.\<close>

fun navigateAll :: "character list \<Rightarrow> string list \<Rightarrow> ui_state \<Rightarrow> error + ui_state" where
  "navigateAll allCharacters [] s = Inr s"
| "navigateAll allCharacters (d # ds) s =
     (case navigateCharacter allCharacters d s of
        Inl e \<Rightarrow> Inl e
      | Inr s' \<Rightarrow> navigateAll allCharacters ds s')"

text \<open>
  The click on an equipment slot (the inline \<^verbatim>\<open>onClick\<close> of the equipment panel):
  it records the category and opens the equipment list.
\<close>

definition equipmentSlot_onClick :: "string \<Rightarrow> ui_state \<Rightarrow> error + ui_state" where
  "equipmentSlot_onClick category s =
     Inr (s\<lparr> selectedCategory := Some category, showEquipmentList := True \<rparr>)"

text \<open>
  \<^verbatim>\<open>handleEquipmentSelect(equipment)\<close>: the spread of the previous object with the
  computed property \<^verbatim>\<open>[selectedCategory]\<close> set, which overwrites the property in
  place when the object has it and appends it otherwise.
\<close>

definition handleEquipmentSelect :: "equipment \<Rightarrow> ui_state \<Rightarrow> error + ui_state" where
  "handleEquipmentSelect eq s =
     Inr (s\<lparr> selectedEquipment :=
                 AList.update (property_key (selectedCategory s)) (Some eq) (selectedEquipment s),
               showEquipmentList := False,
               selectedCategory := None,
               toasts := toasts s @ [e_name eq @ '' equipped!''] \<rparr>)"

text \<open>
  Equipping an item into a category is the click on the category's slot followed by
  the choice of the item in the list that the click opens.
\<close>

definition equip :: "string \<Rightarrow> equipment \<Rightarrow> ui_state \<Rightarrow> error + ui_state" where
  "equip category eq s =
     (case equipmentSlot_onClick category s of
        Inl e \<Rightarrow> Inl e
      | Inr s' \<Rightarrow> handleEquipmentSelect eq s')"

text \<open>
  \<^verbatim>\<open>handleHissatsuSelect(hissatsu)\<close>: nothing happens while no slot index is set;
  otherwise the technique is written at the slot index of a spread copy of the array.
\<close>

definition handleHissatsuSelect :: "technique \<Rightarrow> ui_state \<Rightarrow> error + ui_state" where
  "handleHissatsuSelect h s =
     (case hissatsuSlotIndex s of
        None \<Rightarrow> Inr s
      | Some i \<Rightarrow>
          Inr (s\<lparr> selectedHissatsu := js_array_set (js_spread (selectedHissatsu s)) i h,
                    showHissatsuList := False,
                    hissatsuSlotIndex := None \<rparr>))"

text \<open>
  \<^verbatim>\<open>handleRemoveHissatsu(index)\<close>: \<^verbatim>\<open>splice(index, 1)\<close> on a spread copy of the
  array.
\<close>

definition handleRemoveHissatsu :: "int \<Rightarrow> ui_state \<Rightarrow> error + ui_state" where
  "handleRemoveHissatsu index s =
     Inr (s\<lparr> selectedHissatsu := js_splice1 (js_spread (selectedHissatsu s)) index \<rparr>)"

text \<open>
  \<^verbatim>\<open>handleAddHissatsu()\<close>: below four techniques the slot index becomes the length
  and the picker opens; otherwise nothing happens.
\<close>

definition handleAddHissatsu :: "ui_state \<Rightarrow> error + ui_state" where
  "handleAddHissatsu s =
     (if length (selectedHissatsu s) < 4
      then Inr (s\<lparr> hissatsuSlotIndex := Some (int (length (selectedHissatsu s))),
                     showHissatsuList := True \<rparr>)
      else Inr s)"

text \<open>\<^verbatim>\<open>handleChangeHissatsu(index)\<close>: the slot index is set and the picker opens.\<close>

definition handleChangeHissatsu :: "int \<Rightarrow> ui_state \<Rightarrow> error + ui_state" where
  "handleChangeHissatsu index s =
     Inr (s\<lparr> hissatsuSlotIndex := Some index, showHissatsuList := True \<rparr>)"

subsection \<open>Stat computation\<close>

text \<open>
  Modelled from the spec: \<^verbatim>\<open>calculateStats\<close> is imported from
  \<^verbatim>\<open>../data/mock\<close>, a file that is not among the sources; the component only calls
  it. The definitions of this subsection follow section 4.1 of the specification
  (\<^verbatim>\<open>computeStats(character, loadout, level, rarity)\<close>): the seven stat names, the four
  rarity tiers, the level range, the bonuses of the filled slots summed per stat (a
  stat name outside the seven is never looked up, so it is ignored), and InvalidInput
  for a level or rarity outside its domain. The specification leaves the scaling
  formula open, so it is the parameter \<open>adjust\<close>: level, rarity, base pair and summed
  bonus to the adjusted pair.
\<close>

definition stat_names :: "string list" where
  "stat_names =
     [''kick'', ''control'', ''technique'', ''intelligence'', ''pressure'', ''agility'',
      ''physical'']"

definition rarity_tiers :: "string list" where
  "rarity_tiers = [''Common'', ''Rare'', ''Epic'', ''Legendary'']"

definition item_bonus :: "equipment option \<Rightarrow> string \<Rightarrow> int" where
  "item_bonus item stat =
     (case item of
        None \<Rightarrow> 0
      | Some e \<Rightarrow> (case map_of (e_stats e) stat of None \<Rightarrow> 0 | Some b \<Rightarrow> b))"

definition equipment_bonus :: "(string \<times> equipment option) list \<Rightarrow> string \<Rightarrow> int" where
  "equipment_bonus loadout stat = sum_list (map (\<lambda>(k, item). item_bonus item stat) loadout)"

definition base_stat :: "character \<Rightarrow> string \<Rightarrow> int \<times> int" where
  "base_stat ch stat = (case map_of (baseStats ch) stat of None \<Rightarrow> (0, 0) | Some p \<Rightarrow> p)"

definition computeStats ::
  "(int \<Rightarrow> string \<Rightarrow> int \<times> int \<Rightarrow> int \<Rightarrow> int \<times> int) \<Rightarrow> character \<Rightarrow>
   (string \<times> equipment option) list \<Rightarrow> int \<Rightarrow> string \<Rightarrow> error + (string \<times> int \<times> int) list" where
  "computeStats adjust ch loadout level rarity =
     (if level < 1 \<or> 99 < level then Inl InvalidInput
      else if rarity \<notin> set rarity_tiers then Inl InvalidInput
      else Inr (map (\<lambda>stat. (stat, adjust level rarity (base_stat ch stat)
                                      (equipment_bonus loadout stat)))
                  stat_names))"

subsection \<open>Sample data\<close>

text \<open>Concrete techniques, items, characters and states on which the handlers are run.\<close>

definition sample_technique :: "int \<Rightarrow> technique" where
  "sample_technique k =
     \<lparr> h_id = k, h_name = ''Fire Tornado'', h_icon = ''fire.png'',
       h_description = ''A blazing shot'', h_type = ''Shot'' \<rparr>"

definition sample_item :: "int \<Rightarrow> string \<Rightarrow> int \<Rightarrow> equipment" where
  "sample_item k category bonus =
     \<lparr> e_id = k, e_name = ''Item'', e_icon = ''item.png'', e_category = category,
       e_rarity = ''Rare'', e_stats = [(''kick'', bonus)] \<rparr>"

definition sample_character :: "int \<Rightarrow> int \<Rightarrow> string \<Rightarrow> technique list \<Rightarrow> character" where
  "sample_character k level rarity hs =
     \<lparr> c_id = k, c_name = ''Player'', nickname = ''P'', title = ''Striker'',
       position = ''FW'', jerseyNumber = 10, baseLevel = level, baseRarity = rarity,
       baseStats = [(''kick'', (80, 10))], teamPassives = [], hissatsu = Some hs \<rparr>"

text \<open>
  Three characters: the first at level 99 and Legendary with one technique of its
  own, the second at level 50 and Rare with none, the third at level 10 and Common.
\<close>

definition sample_roster :: "character list" where
  "sample_roster =
     [sample_character 1 99 ''Legendary'' [sample_technique 7],
      sample_character 2 50 ''Rare'' [],
      sample_character 3 10 ''Common'' []]"

text \<open>The modal as opened on the first character.\<close>

definition sample_state :: ui_state where
  "sample_state = initial_state (sample_roster ! 0) sample_roster"

text \<open>A state with the given technique list and slot index, all else as opened.\<close>

definition state_with :: "technique entry list \<Rightarrow> int option \<Rightarrow> ui_state" where
  "state_with ts idx = sample_state\<lparr> selectedHissatsu := ts, hissatsuSlotIndex := idx \<rparr>"

definition four_techniques :: "technique entry list" where
  "four_techniques =
     [Item (sample_technique 1), Item (sample_technique 2), Item (sample_technique 3),
      Item (sample_technique 4)]"

text \<open>A sample scaling formula for the modelled stat computation.\<close>

definition sample_adjust :: "int \<Rightarrow> string \<Rightarrow> int \<times> int \<Rightarrow> int \<Rightarrow> int \<times> int" where
  "sample_adjust level rarity p bonus = (fst p * level div 99 + bonus, snd p)"

section \<open>Properties of the handlers\<close>

subsection \<open>Facts about the primitives and the sample data\<close>

text \<open>On a non-negative dividend and a positive divisor, \<^verbatim>\<open>%\<close> is \<open>mod\<close>.\<close>

lemma js_rem_nonneg: "0 \<le> a \<Longrightarrow> 0 < b \<Longrightarrow> js_rem a b = Some (a mod b)"
  by (simp add: js_rem_def sgn_if)

text \<open>\<^verbatim>\<open>splice(i, 1)\<close> inside, beyond and before the array.\<close>

lemma js_splice1_inside:
  assumes "0 \<le> i" "i < int (length xs)"
  shows "js_splice1 xs i = take (nat i) xs @ drop (Suc (nat i)) xs"
proof -
  have m: "min i (int (length xs)) = i" using assms by simp
  have c: "min 1 (int (length xs) - i) = 1" using assms by simp
  have n: "nat (i + 1) = Suc (nat i)" using assms by (simp add: nat_add_distrib)
  show ?thesis using assms m c n by (simp add: js_splice1_def Let_def)
qed


text \<open>
  The spread copy has the length of the array, reads as the array does at every
  index, and is the array itself when the array has no empty slot.
\<close>

lemma js_spread_length: "length (js_spread xs) = length xs"
  by (simp add: js_spread_def)

lemma spread_entry_value: "entry_value (spread_entry e) = entry_value e"
  by (cases e) simp_all

lemma js_spread_values: "map entry_value (js_spread xs) = map entry_value xs"
  by (simp add: js_spread_def comp_def spread_entry_value)

lemma js_spread_nth_value:
  "j < length xs \<Longrightarrow> entry_value (js_spread xs ! j) = entry_value (xs ! j)"
  by (simp add: js_spread_def spread_entry_value)

lemma js_spread_no_holes: "Hole \<notin> set xs \<Longrightarrow> js_spread xs = xs"
proof (induction xs)
  case Nil
  then show ?case by (simp add: js_spread_def)
next
  case (Cons x xs)
  then have "x \<noteq> Hole" "js_spread xs = xs" by auto
  then show ?case by (cases x) (simp_all add: js_spread_def)
qed

text \<open>A write at the length of the array, below the limit of array indices, appends.\<close>

lemma js_array_set_at_length:
  "int (length xs) < 4294967295 \<Longrightarrow> js_array_set xs (int (length xs)) v = xs @ [Item v]"
  by (simp add: js_array_set_def)

text \<open>Reading a list from which the entry at \<open>k\<close> was taken out.\<close>

lemma remove_nth_before: "j < k \<Longrightarrow> k < length xs \<Longrightarrow> (take k xs @ drop (Suc k) xs) ! j = xs ! j"
  by (simp add: nth_append)

lemma remove_nth_after:
  "k \<le> j \<Longrightarrow> j < length xs - 1 \<Longrightarrow> k < length xs \<Longrightarrow>
   (take k xs @ drop (Suc k) xs) ! j = xs ! Suc j"
  by (simp add: nth_append min_def)

text \<open>The fields of the sample states.\<close>

lemma sample_state_fields:
  "currentCharacterIndex sample_state = Some 0"
  "userLevel sample_state = 99"
  "userRarity sample_state = ''Legendary''"
  "selectedEquipment sample_state = empty_equipment"
  "selectedHissatsu sample_state = [Item (sample_technique 7)]"
  "selectedCategory sample_state = None"
  "hissatsuSlotIndex sample_state = None"
  by (simp_all add: sample_state_def initial_state_def sample_roster_def sample_character_def)

lemma four_fields:
  "selectedHissatsu (state_with ts idx) = ts"
  "hissatsuSlotIndex (state_with ts idx) = idx"
  by (simp_all add: state_with_def)

subsection \<open>Navigation\<close>

text \<open>
  Whatever the direction and the state, a navigation click ends normally, sets level,
  rarity and equipment to fixed values and leaves the technique list as it was.
\<close>

lemma navigateCharacter_resets:
  assumes "navigateCharacter cs d s = Inr s'"
  shows "userLevel s' = 99 \<and> userRarity s' = ''Legendary'' \<and>
         selectedEquipment s' = empty_equipment \<and>
         selectedHissatsu s' = selectedHissatsu s"
  using assms by (auto simp: navigateCharacter_def Let_def)

text \<open>One click forward or backward from an index inside the list.\<close>

lemma navigate_next_step:
  assumes "0 \<le> i" "i < int (length cs)" "currentCharacterIndex s = Some i"
  shows "navigateCharacter cs ''next'' s =
           Inr (s\<lparr> currentCharacterIndex := Some ((i + 1) mod int (length cs)),
                     userLevel := 99, userRarity := ''Legendary'',
                     selectedEquipment := empty_equipment \<rparr>)"
proof -
  have "0 \<le> i + 1" "0 < int (length cs)" using assms by linarith+
  then have "js_rem (i + 1) (int (length cs)) = Some ((i + 1) mod int (length cs))"
    by (rule js_rem_nonneg)
  then show ?thesis using assms(3) by (simp add: navigateCharacter_def)
qed

lemma navigate_prev_step:
  assumes "0 \<le> i" "i < int (length cs)" "currentCharacterIndex s = Some i" "d \<noteq> ''next''"
  shows "navigateCharacter cs d s =
           Inr (s\<lparr> currentCharacterIndex := Some ((i - 1 + int (length cs)) mod int (length cs)),
                     userLevel := 99, userRarity := ''Legendary'',
                     selectedEquipment := empty_equipment \<rparr>)"
proof -
  have "0 \<le> i - 1 + int (length cs)" "0 < int (length cs)" using assms by linarith+
  then have "js_rem (i - 1 + int (length cs)) (int (length cs)) =
               Some ((i - 1 + int (length cs)) mod int (length cs))"
    by (rule js_rem_nonneg)
  then show ?thesis using assms(3,4) by (simp add: navigateCharacter_def)
qed

lemma navigate_step_range:
  assumes "0 \<le> i" "i < int (length cs)" "currentCharacterIndex s = Some i"
  shows "\<exists>s' j. navigateCharacter cs d s = Inr s' \<and> currentCharacterIndex s' = Some j \<and>
                 0 \<le> j \<and> j < int (length cs)"
proof -
  have n: "0 < int (length cs)" using assms by linarith
  show ?thesis
  proof (cases "d = ''next''")
    case True
    have "0 \<le> (i + 1) mod int (length cs)" "(i + 1) mod int (length cs) < int (length cs)"
      using n by simp_all
    then show ?thesis using True navigate_next_step [OF assms] by simp
  next
    case False
    have "0 \<le> (i - 1 + int (length cs)) mod int (length cs)"
         "(i - 1 + int (length cs)) mod int (length cs) < int (length cs)"
      using n by (simp_all del: mod_add_self2)
    then show ?thesis using navigate_prev_step [OF assms False] by (simp del: mod_add_self2)
  qed
qed

lemma navigateAll_range:
  "0 \<le> i \<Longrightarrow> i < int (length cs) \<Longrightarrow> currentCharacterIndex s = Some i \<Longrightarrow>
   \<exists>s' j. navigateAll cs ds s = Inr s' \<and> currentCharacterIndex s' = Some j \<and>
           0 \<le> j \<and> j < int (length cs)"
proof (induction ds arbitrary: s i)
  case Nil
  then show ?case by simp
next
  case (Cons d ds)
  from navigate_step_range [OF Cons.prems, of d]
  obtain s1 j where st: "navigateCharacter cs d s = Inr s1"
    and j: "currentCharacterIndex s1 = Some j" "0 \<le> j" "j < int (length cs)"
    by blast
  from Cons.IH [OF j(2) j(3) j(1)] st show ?case by simp
qed

lemma navigateAll_forward:
  "0 \<le> i \<Longrightarrow> i < int (length cs) \<Longrightarrow> currentCharacterIndex s = Some i \<Longrightarrow>
   \<exists>s'. navigateAll cs (replicate k ''next'') s = Inr s' \<and>
        currentCharacterIndex s' = Some ((i + int k) mod int (length cs))"
proof (induction k arbitrary: s i)
  case 0
  then show ?case by simp
next
  case (Suc k)
  let ?n = "int (length cs)"
  let ?s1 = "s\<lparr> currentCharacterIndex := Some ((i + 1) mod ?n),
                 userLevel := 99, userRarity := ''Legendary'',
                 selectedEquipment := empty_equipment \<rparr>"
  have st: "navigateCharacter cs ''next'' s = Inr ?s1"
    by (rule navigate_next_step [OF Suc.prems])
  have n: "0 < ?n" using Suc.prems by linarith
  have r: "0 \<le> (i + 1) mod ?n" "(i + 1) mod ?n < ?n" using n by simp_all
  have "currentCharacterIndex ?s1 = Some ((i + 1) mod ?n)" by simp
  from Suc.IH [OF r this]
  obtain s' where a: "navigateAll cs (replicate k ''next'') ?s1 = Inr s'"
    and b: "currentCharacterIndex s' = Some (((i + 1) mod ?n + int k) mod ?n)"
    by blast
  have "((i + 1) mod ?n + int k) mod ?n = (i + 1 + int k) mod ?n"
    by (rule mod_add_left_eq)
  moreover have "i + 1 + int k = i + int (Suc k)" by simp
  ultimately have "((i + 1) mod ?n + int k) mod ?n = (i + int (Suc k)) mod ?n"
    by (simp only:)
  with a b st show ?case by simp
qed

text \<open>
  Claim C1. On a character switch the reset clears the four equipment slots and
  empties the technique list. Run on the sample roster, with the modal opened on the
  first character (which has one technique of its own), a click on "next" does clear
  the four slots, but the technique list still holds the first character's technique:
  \<open>navigateCharacter\<close> never writes \<open>selectedHissatsu\<close>. Opening the modal on the second
  character directly gives an empty list.
\<close>

theorem navigateCharacter_keeps_techniques:
  "\<exists>s'. navigateCharacter sample_roster ''next'' sample_state = Inr s' \<and>
        currentCharacterIndex s' = Some 1 \<and>
        selectedEquipment s' = empty_equipment \<and>
        selectedHissatsu s' = [Item (sample_technique 7)] \<and>
        selectedHissatsu s' \<noteq> [] \<and>
        selectedHissatsu (initial_state (sample_roster ! 1) sample_roster) = []"
  by (simp add: navigateCharacter_def js_rem_def sample_state_fields)
     (simp add: sample_roster_def initial_state_def sample_character_def)

text \<open>
  Claim C2. On navigation, level and rarity are restored to the base defaults of the
  newly selected character. Run on the sample roster, a click on "next" selects the
  second character, whose base level is 50 and base rarity Rare, and leaves level 99
  and rarity Legendary: \<open>navigateCharacter\<close> writes the two constants, where the
  initial state of the modal reads \<open>baseLevel\<close> and \<open>baseRarity\<close> of its character.
\<close>

theorem navigateCharacter_level_rarity_constants:
  "\<exists>s' ch. navigateCharacter sample_roster ''next'' sample_state = Inr s' \<and>
        currentCharacter sample_roster s' = Some ch \<and>
        baseLevel ch = 50 \<and> baseRarity ch = ''Rare'' \<and>
        userLevel s' = 99 \<and> userRarity s' = ''Legendary'' \<and>
        userLevel s' \<noteq> baseLevel ch \<and> userRarity s' \<noteq> baseRarity ch \<and>
        userLevel (initial_state ch sample_roster) = 50 \<and>
        userRarity (initial_state ch sample_roster) = ''Rare''"
  by (simp add: navigateCharacter_def js_rem_def sample_state_fields currentCharacter_def
        js_index_def sample_roster_def initial_state_def sample_character_def)

text \<open>
  Claim C7. For a list of \<open>n \<ge> 1\<close> characters and a current index \<open>i\<close> in \<open>[0, n)\<close>,
  navigating forward gives the index \<open>(i + 1) mod n\<close>, navigating backward gives
  \<open>(i - 1 + n) mod n\<close>, and navigating forward \<open>n\<close> times gives the original index and
  so the original character.
\<close>

theorem navigateCharacter_wraps:
  assumes "1 \<le> length cs" "0 \<le> i" "i < int (length cs)" "currentCharacterIndex s = Some i"
  shows "(\<exists>s'. navigateCharacter cs ''next'' s = Inr s' \<and>
               currentCharacterIndex s' = Some ((i + 1) mod int (length cs))) \<and>
         (\<exists>s'. navigateCharacter cs ''prev'' s = Inr s' \<and>
               currentCharacterIndex s' = Some ((i - 1 + int (length cs)) mod int (length cs))) \<and>
         (\<exists>s'. navigateAll cs (replicate (length cs) ''next'') s = Inr s' \<and>
               currentCharacterIndex s' = currentCharacterIndex s \<and>
               currentCharacter cs s' = currentCharacter cs s)"
proof -
  have a: "\<exists>s'. navigateCharacter cs ''next'' s = Inr s' \<and>
               currentCharacterIndex s' = Some ((i + 1) mod int (length cs))"
    using navigate_next_step [OF assms(2-4)] by simp
  have b: "\<exists>s'. navigateCharacter cs ''prev'' s = Inr s' \<and>
               currentCharacterIndex s' = Some ((i - 1 + int (length cs)) mod int (length cs))"
    using navigate_prev_step [OF assms(2-4), of "''prev''"] by simp
  from navigateAll_forward [OF assms(2-4), of "length cs"]
  obtain s' where c: "navigateAll cs (replicate (length cs) ''next'') s = Inr s'"
    and d: "currentCharacterIndex s' = Some ((i + int (length cs)) mod int (length cs))"
    by blast
  have "(i + int (length cs)) mod int (length cs) = i" using assms(2,3) by simp
  with d assms(4) have "currentCharacterIndex s' = currentCharacterIndex s" by simp
  with c have "\<exists>s'. navigateAll cs (replicate (length cs) ''next'') s = Inr s' \<and>
               currentCharacterIndex s' = currentCharacterIndex s \<and>
               currentCharacter cs s' = currentCharacter cs s"
    by (simp add: currentCharacter_def)
  with a b show ?thesis by blast
qed

theorem navigateCharacter_wraps_witness:
  "1 \<le> length sample_roster \<and> currentCharacterIndex sample_state = Some 0 \<and>
   (\<exists>s'. navigateCharacter sample_roster ''next'' sample_state = Inr s' \<and>
         currentCharacterIndex s' = Some 1) \<and>
   (\<exists>s'. navigateCharacter sample_roster ''prev'' sample_state = Inr s' \<and>
         currentCharacterIndex s' = Some 2) \<and>
   (\<exists>s'. navigateAll sample_roster (replicate (length sample_roster) ''next'') sample_state = Inr s' \<and>
         currentCharacterIndex s' = currentCharacterIndex sample_state \<and>
         currentCharacter sample_roster s' = currentCharacter sample_roster sample_state)"
proof -
  have len: "length sample_roster = 3" by (simp add: sample_roster_def)
  have idx: "currentCharacterIndex sample_state = Some 0"
    by (simp add: sample_state_def initial_state_def sample_roster_def sample_character_def)
  have h1: "1 \<le> length sample_roster" using len by simp
  have h3: "(0::int) < int (length sample_roster)" using len by simp
  from navigateCharacter_wraps [OF h1 _ h3 idx] len idx show ?thesis by simp
qed

text \<open>
  Claim C10. For a list of \<open>n \<ge> 1\<close> characters, a current index in \<open>[0, n)\<close> is still
  in \<open>[0, n)\<close> after any run of navigation clicks, whatever their directions.
\<close>

theorem navigation_index_in_range:
  assumes "1 \<le> length cs" "0 \<le> i" "i < int (length cs)" "currentCharacterIndex s = Some i"
  shows "\<exists>s' j. navigateAll cs ds s = Inr s' \<and> currentCharacterIndex s' = Some j \<and>
                 0 \<le> j \<and> j < int (length cs)"
  using navigateAll_range [OF assms(2-4)] .

theorem navigation_index_in_range_witness:
  "1 \<le> length sample_roster \<and> currentCharacterIndex sample_state = Some 0 \<and>
   (\<exists>s' j. navigateAll sample_roster [''next'', ''prev'', ''prev'', ''next'', ''next''] sample_state = Inr s' \<and>
         currentCharacterIndex s' = Some j \<and> 0 \<le> j \<and> j < 3)"
proof -
  have len: "length sample_roster = 3" by (simp add: sample_roster_def)
  have idx: "currentCharacterIndex sample_state = Some 0"
    by (simp add: sample_state_def initial_state_def sample_roster_def sample_character_def)
  have h1: "1 \<le> length sample_roster" using len by simp
  have h3: "(0::int) < int (length sample_roster)" using len by simp
  from navigation_index_in_range [OF h1 _ h3 idx, of "[''next'', ''prev'', ''prev'', ''next'', ''next'']"] len idx
  show ?thesis by simp
qed

subsection \<open>Techniques\<close>

text \<open>
  As the specification words claim C3, adding to a list of four techniques fails with
  CapacityExceeded. On a state with four techniques \<open>handleAddHissatsu\<close> ends
  normally and returns the state as it was: the component has no error to report.
\<close>

theorem handleAddHissatsu_full_counterexample:
  "length (selectedHissatsu (state_with four_techniques None)) = 4 \<and>
   handleAddHissatsu (state_with four_techniques None) = Inr (state_with four_techniques None) \<and>
   handleAddHissatsu (state_with four_techniques None) \<noteq> Inl CapacityExceeded"
  by (simp add: handleAddHissatsu_def state_with_def four_techniques_def)

text \<open>
  Claim C3, amended. On a state whose technique list has four entries,
  \<open>handleAddHissatsu\<close> ends without an error and changes nothing, so the list keeps
  its four entries. On a state with fewer than four entries it sets the slot index to
  the current length and opens the picker, and the choice of a technique there
  (\<open>handleHissatsuSelect\<close>) appends the technique at that index: the new list is the
  spread copy of the old one followed by the technique, so it reads as the old list
  followed by the technique, and it is the old list followed by the technique when
  the old list has no empty slot.
\<close>

theorem handleAddHissatsu_capacity:
  "(length (selectedHissatsu s) = 4 \<longrightarrow> handleAddHissatsu s = Inr s) \<and>
   (length (selectedHissatsu s) < 4 \<longrightarrow>
      (\<exists>s1 s2. handleAddHissatsu s = Inr s1 \<and>
               hissatsuSlotIndex s1 = Some (int (length (selectedHissatsu s))) \<and>
               showHissatsuList s1 \<and>
               handleHissatsuSelect h s1 = Inr s2 \<and>
               selectedHissatsu s2 = js_spread (selectedHissatsu s) @ [Item h] \<and>
               map entry_value (selectedHissatsu s2) =
                 map entry_value (selectedHissatsu s) @ [Some h] \<and>
               (Hole \<notin> set (selectedHissatsu s) \<longrightarrow>
                  selectedHissatsu s2 = selectedHissatsu s @ [Item h]) \<and>
               selectedHissatsu s2 ! length (selectedHissatsu s) = Item h \<and>
               length (selectedHissatsu s2) = length (selectedHissatsu s) + 1))"
proof (intro conjI impI)
  assume "length (selectedHissatsu s) = 4"
  then show "handleAddHissatsu s = Inr s"
    by (simp add: handleAddHissatsu_def)
next
  assume room: "length (selectedHissatsu s) < 4"
  let ?ts = "selectedHissatsu s"
  let ?n = "length ?ts"
  let ?s1 = "s\<lparr> hissatsuSlotIndex := Some (int ?n), showHissatsuList := True \<rparr>"
  let ?s2 = "?s1\<lparr> selectedHissatsu := js_spread ?ts @ [Item h],
                   showHissatsuList := False, hissatsuSlotIndex := None \<rparr>"
  have opened: "handleAddHissatsu s = Inr ?s1"
    using room by (simp add: handleAddHissatsu_def)
  have "int (length (js_spread ?ts)) < 4294967295"
    using room by (simp add: js_spread_length)
  then have "js_array_set (js_spread ?ts) (int (length (js_spread ?ts))) h =
               js_spread ?ts @ [Item h]"
    by (rule js_array_set_at_length)
  then have written: "js_array_set (js_spread ?ts) (int ?n) h = js_spread ?ts @ [Item h]"
    by (simp add: js_spread_length)
  have picked: "handleHissatsuSelect h ?s1 = Inr ?s2"
    using written by (simp add: handleHissatsuSelect_def)
  have f1: "hissatsuSlotIndex ?s1 = Some (int ?n)" "showHissatsuList ?s1"
    "selectedHissatsu ?s2 = js_spread ?ts @ [Item h]"
    by simp_all
  have f2: "map entry_value (selectedHissatsu ?s2) = map entry_value ?ts @ [Some h]"
    by (simp add: js_spread_values)
  have f3: "Hole \<notin> set ?ts \<longrightarrow> selectedHissatsu ?s2 = ?ts @ [Item h]"
    by (simp add: js_spread_no_holes)
  have f4: "selectedHissatsu ?s2 ! ?n = Item h"
    by (simp add: nth_append js_spread_length)
  have f5: "length (selectedHissatsu ?s2) = ?n + 1"
    by (simp add: js_spread_length)
  from opened picked f1 f2 f3 f4 f5
  show "\<exists>s1 s2. handleAddHissatsu s = Inr s1 \<and>
               hissatsuSlotIndex s1 = Some (int (length (selectedHissatsu s))) \<and>
               showHissatsuList s1 \<and>
               handleHissatsuSelect h s1 = Inr s2 \<and>
               selectedHissatsu s2 = js_spread (selectedHissatsu s) @ [Item h] \<and>
               map entry_value (selectedHissatsu s2) =
                 map entry_value (selectedHissatsu s) @ [Some h] \<and>
               (Hole \<notin> set (selectedHissatsu s) \<longrightarrow>
                  selectedHissatsu s2 = selectedHissatsu s @ [Item h]) \<and>
               selectedHissatsu s2 ! length (selectedHissatsu s) = Item h \<and>
               length (selectedHissatsu s2) = length (selectedHissatsu s) + 1"
    by blast
qed

theorem handleAddHissatsu_capacity_witness:
  "length (selectedHissatsu (state_with four_techniques None)) = 4 \<and>
   handleAddHissatsu (state_with four_techniques None) = Inr (state_with four_techniques None) \<and>
   length (selectedHissatsu sample_state) < 4 \<and>
   Hole \<notin> set (selectedHissatsu sample_state) \<and>
   (\<exists>s1 s2. handleAddHissatsu sample_state = Inr s1 \<and>
            hissatsuSlotIndex s1 = Some 1 \<and>
            handleHissatsuSelect (sample_technique 9) s1 = Inr s2 \<and>
            selectedHissatsu s2 = [Item (sample_technique 7), Item (sample_technique 9)])"
proof -
  have a: "length (selectedHissatsu (state_with four_techniques None)) = 4"
    by (simp add: state_with_def four_techniques_def)
  have b: "length (selectedHissatsu sample_state) < 4"
    by (simp add: sample_state_fields)
  have n: "Hole \<notin> set (selectedHissatsu sample_state)"
    by (simp add: sample_state_fields)
  from handleAddHissatsu_capacity [of "state_with four_techniques None" "sample_technique 9"] a
  have c: "handleAddHissatsu (state_with four_techniques None) = Inr (state_with four_techniques None)"
    by simp
  from handleAddHissatsu_capacity [of sample_state "sample_technique 9"] b n
  obtain s1 s2 where "handleAddHissatsu sample_state = Inr s1"
    "hissatsuSlotIndex s1 = Some (int (length (selectedHissatsu sample_state)))"
    "handleHissatsuSelect (sample_technique 9) s1 = Inr s2"
    "selectedHissatsu s2 = selectedHissatsu sample_state @ [Item (sample_technique 9)]"
    by blast
  then have d: "\<exists>s1 s2. handleAddHissatsu sample_state = Inr s1 \<and>
            hissatsuSlotIndex s1 = Some 1 \<and>
            handleHissatsuSelect (sample_technique 9) s1 = Inr s2 \<and>
            selectedHissatsu s2 = [Item (sample_technique 7), Item (sample_technique 9)]"
    by (simp add: sample_state_fields)
  from a b n c d show ?thesis by simp
qed




text \<open>
  Claim C5. For a technique list of length \<open>L \<ge> 1\<close> and an index \<open>i\<close> with
  \<open>0 \<le> i < L\<close>, removing at \<open>i\<close> gives a list of length \<open>L - 1\<close>: the entries before
  \<open>i\<close> stay where they were and the entries after \<open>i\<close> move one position to the left,
  so the remaining entries keep their order. The new list is cut out of the spread
  copy of the old one: it reads as the old list does at the positions that remain,
  and its slots are those of the old list when the old list has no empty slot.
\<close>

theorem handleRemoveHissatsu_valid_index:
  assumes "1 \<le> length (selectedHissatsu s)" "0 \<le> i" "i < int (length (selectedHissatsu s))"
  shows "\<exists>s'. handleRemoveHissatsu i s = Inr s' \<and>
           selectedHissatsu s' =
             take (nat i) (js_spread (selectedHissatsu s)) @
             drop (Suc (nat i)) (js_spread (selectedHissatsu s)) \<and>
           length (selectedHissatsu s') = length (selectedHissatsu s) - 1 \<and>
           (\<forall>j. j < nat i \<longrightarrow>
                entry_value (selectedHissatsu s' ! j) = entry_value (selectedHissatsu s ! j)) \<and>
           (\<forall>j. nat i \<le> j \<and> j < length (selectedHissatsu s) - 1 \<longrightarrow>
                entry_value (selectedHissatsu s' ! j) =
                entry_value (selectedHissatsu s ! Suc j)) \<and>
           (Hole \<notin> set (selectedHissatsu s) \<longrightarrow>
              selectedHissatsu s' =
                take (nat i) (selectedHissatsu s) @ drop (Suc (nat i)) (selectedHissatsu s) \<and>
              (\<forall>j. j < nat i \<longrightarrow> selectedHissatsu s' ! j = selectedHissatsu s ! j) \<and>
              (\<forall>j. nat i \<le> j \<and> j < length (selectedHissatsu s) - 1 \<longrightarrow>
                   selectedHissatsu s' ! j = selectedHissatsu s ! Suc j))"
proof -
  let ?ts = "selectedHissatsu s"
  let ?cs = "js_spread ?ts"
  let ?s' = "s\<lparr> selectedHissatsu := take (nat i) ?cs @ drop (Suc (nat i)) ?cs \<rparr>"
  have k: "nat i < length ?ts" using assms by linarith
  have kc: "nat i < length ?cs" using k by (simp add: js_spread_length)
  have "0 \<le> i" "i < int (length ?cs)" using assms by (simp_all add: js_spread_length)
  then have cut: "js_splice1 ?cs i = take (nat i) ?cs @ drop (Suc (nat i)) ?cs"
    by (rule js_splice1_inside)
  have r: "handleRemoveHissatsu i s = Inr ?s'"
    using cut by (simp add: handleRemoveHissatsu_def)
  have e: "selectedHissatsu ?s' = take (nat i) ?cs @ drop (Suc (nat i)) ?cs" by simp
  have l: "length (selectedHissatsu ?s') = length ?ts - 1"
    using k by (simp add: js_spread_length)
  have b: "\<forall>j. j < nat i \<longrightarrow> entry_value (selectedHissatsu ?s' ! j) = entry_value (?ts ! j)"
  proof (intro allI impI)
    fix j assume j: "j < nat i"
    then have "selectedHissatsu ?s' ! j = ?cs ! j"
      using kc by (simp add: remove_nth_before)
    moreover have "j < length ?ts" using j k by simp
    ultimately show "entry_value (selectedHissatsu ?s' ! j) = entry_value (?ts ! j)"
      by (simp add: js_spread_nth_value)
  qed
  have a: "\<forall>j. nat i \<le> j \<and> j < length ?ts - 1 \<longrightarrow>
             entry_value (selectedHissatsu ?s' ! j) = entry_value (?ts ! Suc j)"
  proof (intro allI impI)
    fix j assume j: "nat i \<le> j \<and> j < length ?ts - 1"
    then have "j < length ?cs - 1" by (simp add: js_spread_length)
    with j kc have "(take (nat i) ?cs @ drop (Suc (nat i)) ?cs) ! j = ?cs ! Suc j"
      by (simp add: remove_nth_after)
    then have "selectedHissatsu ?s' ! j = ?cs ! Suc j" by simp
    moreover have "Suc j < length ?ts" using j by linarith
    ultimately show "entry_value (selectedHissatsu ?s' ! j) = entry_value (?ts ! Suc j)"
      by (simp add: js_spread_nth_value)
  qed
  have n: "Hole \<notin> set ?ts \<longrightarrow>
              selectedHissatsu ?s' = take (nat i) ?ts @ drop (Suc (nat i)) ?ts \<and>
              (\<forall>j. j < nat i \<longrightarrow> selectedHissatsu ?s' ! j = ?ts ! j) \<and>
              (\<forall>j. nat i \<le> j \<and> j < length ?ts - 1 \<longrightarrow> selectedHissatsu ?s' ! j = ?ts ! Suc j)"
  proof
    assume "Hole \<notin> set ?ts"
    then have same: "?cs = ?ts" by (rule js_spread_no_holes)
    have n1: "selectedHissatsu ?s' = take (nat i) ?ts @ drop (Suc (nat i)) ?ts"
      using same by simp
    have n2: "\<forall>j. j < nat i \<longrightarrow> selectedHissatsu ?s' ! j = ?ts ! j"
      using k n1 by (simp add: remove_nth_before)
    have n3: "\<forall>j. nat i \<le> j \<and> j < length ?ts - 1 \<longrightarrow> selectedHissatsu ?s' ! j = ?ts ! Suc j"
      using k n1 by (simp add: remove_nth_after)
    from n1 n2 n3
    show "selectedHissatsu ?s' = take (nat i) ?ts @ drop (Suc (nat i)) ?ts \<and>
              (\<forall>j. j < nat i \<longrightarrow> selectedHissatsu ?s' ! j = ?ts ! j) \<and>
              (\<forall>j. nat i \<le> j \<and> j < length ?ts - 1 \<longrightarrow> selectedHissatsu ?s' ! j = ?ts ! Suc j)"
      by blast
  qed
  from r e l b a n show ?thesis by blast
qed

theorem handleRemoveHissatsu_valid_index_witness:
  "1 \<le> length (selectedHissatsu (state_with four_techniques None)) \<and>
   (0::int) \<le> 1 \<and> 1 < int (length (selectedHissatsu (state_with four_techniques None))) \<and>
   Hole \<notin> set (selectedHissatsu (state_with four_techniques None)) \<and>
   (\<exists>s'. handleRemoveHissatsu 1 (state_with four_techniques None) = Inr s' \<and>
         selectedHissatsu s' =
           [Item (sample_technique 1), Item (sample_technique 3), Item (sample_technique 4)] \<and>
         length (selectedHissatsu s') = 3)"
proof -
  let ?s = "state_with four_techniques None"
  have len: "length (selectedHissatsu ?s) = 4"
    by (simp add: four_fields four_techniques_def)
  have h1: "1 \<le> length (selectedHissatsu ?s)" using len by simp
  have h2: "(0::int) \<le> 1" by simp
  have h3: "1 < int (length (selectedHissatsu ?s))" using len by simp
  have n: "Hole \<notin> set (selectedHissatsu ?s)"
    by (simp add: four_fields four_techniques_def)
  from handleRemoveHissatsu_valid_index [OF h1 h2 h3] n
  obtain s' where "handleRemoveHissatsu 1 ?s = Inr s'"
    "selectedHissatsu s' =
       take (nat 1) (selectedHissatsu ?s) @ drop (Suc (nat 1)) (selectedHissatsu ?s)"
    "length (selectedHissatsu s') = length (selectedHissatsu ?s) - 1"
    by blast
  then have "\<exists>s'. handleRemoveHissatsu 1 ?s = Inr s' \<and>
         selectedHissatsu s' =
           [Item (sample_technique 1), Item (sample_technique 3), Item (sample_technique 4)] \<and>
         length (selectedHissatsu s') = 3"
    by (simp add: four_fields four_techniques_def)
  with h1 h2 h3 n show ?thesis by blast
qed

subsection \<open>Equipment\<close>

text \<open>Equipping always ends normally, with this state.\<close>

lemma equip_result:
  "equip c e s =
     Inr (s\<lparr> selectedCategory := None, showEquipmentList := False,
             selectedEquipment := AList.update c (Some e) (selectedEquipment s),
             toasts := toasts s @ [e_name e @ '' equipped!''] \<rparr>)"
  by (simp add: equip_def equipmentSlot_onClick_def handleEquipmentSelect_def property_key_def)

text \<open>
  Claim C6. For a category among boots, bracelet, pendant and special, equipping an
  item \<open>a\<close> and then an item \<open>b\<close> into it leaves the slot holding exactly \<open>b\<close>, without
  an error and without a second property for the category; the equipment object is the
  one that equipping \<open>b\<close> alone gives, so the stats computed from it (by any function
  \<open>calculateStats\<close> of character, equipment, level and rarity) are those of \<open>b\<close> alone.
\<close>

theorem equip_last_write_wins:
  assumes "c \<in> {''boots'', ''bracelet'', ''pendant'', ''special''}"
  shows "\<exists>s1 s2 s3. equip c a s = Inr s1 \<and> equip c b s1 = Inr s2 \<and> equip c b s = Inr s3 \<and>
           map_of (selectedEquipment s2) c = Some (Some b) \<and>
           map fst (selectedEquipment s2) = map fst (selectedEquipment s1) \<and>
           selectedEquipment s2 = selectedEquipment s3 \<and>
           calculateStats ch (selectedEquipment s2) (userLevel s2) (userRarity s2) =
           calculateStats ch (selectedEquipment s3) (userLevel s3) (userRarity s3)"
proof -
  let ?s1 = "s\<lparr> selectedCategory := None, showEquipmentList := False,
             selectedEquipment := AList.update c (Some a) (selectedEquipment s),
             toasts := toasts s @ [e_name a @ '' equipped!''] \<rparr>"
  let ?s2 = "?s1\<lparr> selectedCategory := None, showEquipmentList := False,
             selectedEquipment := AList.update c (Some b) (selectedEquipment ?s1),
             toasts := toasts ?s1 @ [e_name b @ '' equipped!''] \<rparr>"
  let ?s3 = "s\<lparr> selectedCategory := None, showEquipmentList := False,
             selectedEquipment := AList.update c (Some b) (selectedEquipment s),
             toasts := toasts s @ [e_name b @ '' equipped!''] \<rparr>"
  have e1: "equip c a s = Inr ?s1" by (rule equip_result)
  have e2: "equip c b ?s1 = Inr ?s2" by (rule equip_result)
  have e3: "equip c b s = Inr ?s3" by (rule equip_result)
  have m: "map_of (selectedEquipment ?s2) c = Some (Some b)"
    by (simp add: update_conv')
  have k: "map fst (selectedEquipment ?s2) = map fst (selectedEquipment ?s1)"
    by (simp add: update_keys dom_update)
  have q: "selectedEquipment ?s2 = selectedEquipment ?s3" by simp
  have u: "userLevel ?s2 = userLevel ?s3" "userRarity ?s2 = userRarity ?s3" by simp_all
  have st: "calculateStats ch (selectedEquipment ?s2) (userLevel ?s2) (userRarity ?s2) =
           calculateStats ch (selectedEquipment ?s3) (userLevel ?s3) (userRarity ?s3)"
    by (simp only: q u)
  from e1 e2 e3 m k q st show ?thesis by blast
qed

theorem equip_last_write_wins_witness:
  "''boots'' \<in> {''boots'', ''bracelet'', ''pendant'', ''special''} \<and>
   (\<exists>s1 s2 s3. equip ''boots'' (sample_item 1 ''boots'' 5) sample_state = Inr s1 \<and>
       equip ''boots'' (sample_item 2 ''boots'' 8) s1 = Inr s2 \<and>
       equip ''boots'' (sample_item 2 ''boots'' 8) sample_state = Inr s3 \<and>
       map_of (selectedEquipment s2) ''boots'' = Some (Some (sample_item 2 ''boots'' 8)) \<and>
       selectedEquipment s2 = selectedEquipment s3 \<and>
       computeStats sample_adjust (sample_roster ! 0) (selectedEquipment s2) (userLevel s2) (userRarity s2) =
       computeStats sample_adjust (sample_roster ! 0) (selectedEquipment s3) (userLevel s3) (userRarity s3))"
proof -
  have h: "''boots'' \<in> {''boots'', ''bracelet'', ''pendant'', ''special''}" by simp
  from equip_last_write_wins [OF h, of "sample_item 1 ''boots'' 5" sample_state
      "sample_item 2 ''boots'' 8" "computeStats sample_adjust" "sample_roster ! 0"]
  show ?thesis using h by blast
qed

text \<open>
  Claim C9. Equipping an item into one category changes only the slot of that
  category: every other property of the equipment object, the level, the rarity and
  the technique list (and the current index) are as before.
\<close>

theorem equip_frame:
  assumes "c \<in> {''boots'', ''bracelet'', ''pendant'', ''special''}"
  shows "\<exists>s'. equip c e s = Inr s' \<and>
           map_of (selectedEquipment s') c = Some (Some e) \<and>
           (\<forall>k. k \<noteq> c \<longrightarrow> map_of (selectedEquipment s') k = map_of (selectedEquipment s) k) \<and>
           userLevel s' = userLevel s \<and>
           userRarity s' = userRarity s \<and>
           selectedHissatsu s' = selectedHissatsu s \<and>
           currentCharacterIndex s' = currentCharacterIndex s"
proof -
  let ?s' = "s\<lparr> selectedCategory := None, showEquipmentList := False,
             selectedEquipment := AList.update c (Some e) (selectedEquipment s),
             toasts := toasts s @ [e_name e @ '' equipped!''] \<rparr>"
  have r: "equip c e s = Inr ?s'" by (rule equip_result)
  have m: "map_of (selectedEquipment ?s') c = Some (Some e)" by (simp add: update_conv')
  have f: "\<forall>k. k \<noteq> c \<longrightarrow> map_of (selectedEquipment ?s') k = map_of (selectedEquipment s) k"
    by (simp add: update_conv')
  have o: "userLevel ?s' = userLevel s" "userRarity ?s' = userRarity s"
    "selectedHissatsu ?s' = selectedHissatsu s"
    "currentCharacterIndex ?s' = currentCharacterIndex s"
    by simp_all
  from r m f o show ?thesis by blast
qed

theorem equip_frame_witness:
  "''pendant'' \<in> {''boots'', ''bracelet'', ''pendant'', ''special''} \<and>
   (\<exists>s'. equip ''pendant'' (sample_item 3 ''pendant'' 4) sample_state = Inr s' \<and>
       selectedEquipment s' =
         [(''boots'', None), (''bracelet'', None),
          (''pendant'', Some (sample_item 3 ''pendant'' 4)), (''special'', None)] \<and>
       map_of (selectedEquipment s') ''boots'' = Some None \<and>
       map_of (selectedEquipment s') ''bracelet'' = Some None \<and>
       map_of (selectedEquipment s') ''special'' = Some None \<and>
       userLevel s' = 99 \<and> userRarity s' = ''Legendary'' \<and>
       selectedHissatsu s' = [Item (sample_technique 7)])"
proof -
  have h: "''pendant'' \<in> {''boots'', ''bracelet'', ''pendant'', ''special''}" by simp
  from equip_frame [OF h, of "sample_item 3 ''pendant'' 4" sample_state]
  obtain s' where r: "equip ''pendant'' (sample_item 3 ''pendant'' 4) sample_state = Inr s'"
    and f: "\<forall>k. k \<noteq> ''pendant'' \<longrightarrow>
              map_of (selectedEquipment s') k = map_of (selectedEquipment sample_state) k"
    and o: "userLevel s' = userLevel sample_state" "userRarity s' = userRarity sample_state"
       "selectedHissatsu s' = selectedHissatsu sample_state"
    by blast
  have q: "selectedEquipment s' =
         [(''boots'', None), (''bracelet'', None),
          (''pendant'', Some (sample_item 3 ''pendant'' 4)), (''special'', None)]"
    using r by (auto simp: equip_def equipmentSlot_onClick_def handleEquipmentSelect_def
        property_key_def sample_state_fields empty_equipment_def)
  have b: "map_of (selectedEquipment s') ''boots'' = Some None"
    "map_of (selectedEquipment s') ''bracelet'' = Some None"
    "map_of (selectedEquipment s') ''special'' = Some None"
    using f by (simp_all add: sample_state_fields empty_equipment_def)
  from h r q b o show ?thesis by (simp add: sample_state_fields)
qed

subsection \<open>Stat computation\<close>

text \<open>
  Claim C8. \<open>computeStats\<close> fails with InvalidInput whenever the level is outside
  \<open>[1, 99]\<close> or the rarity is not one of the four tiers; for a level and a rarity inside
  their domains it returns a stat block for every loadout, the empty one included, so
  it never fails because of an empty slot.
\<close>

theorem computeStats_invalid_input:
  "(level < 1 \<or> 99 < level \<or> rarity \<notin> set rarity_tiers \<longrightarrow>
      computeStats adjust ch loadout level rarity = Inl InvalidInput) \<and>
   (1 \<le> level \<and> level \<le> 99 \<and> rarity \<in> set rarity_tiers \<longrightarrow>
      (\<exists>stats. computeStats adjust ch loadout level rarity = Inr stats \<and>
               map fst stats = stat_names) \<and>
      (\<exists>stats. computeStats adjust ch empty_equipment level rarity = Inr stats \<and>
               map fst stats = stat_names))"
proof (intro conjI impI)
  assume "level < 1 \<or> 99 < level \<or> rarity \<notin> set rarity_tiers"
  then show "computeStats adjust ch loadout level rarity = Inl InvalidInput"
    by (auto simp: computeStats_def)
next
  assume ok: "1 \<le> level \<and> level \<le> 99 \<and> rarity \<in> set rarity_tiers"
  have names: "map fst (map (\<lambda>stat. (stat, f stat)) stat_names) = stat_names" for f :: "string \<Rightarrow> int \<times> int"
    by (simp add: comp_def)
  have any: "\<exists>stats. computeStats adjust ch l level rarity = Inr stats \<and>
               map fst stats = stat_names" for l
    using ok names by (simp add: computeStats_def)
  from any show "\<exists>stats. computeStats adjust ch loadout level rarity = Inr stats \<and>
               map fst stats = stat_names" .
  from any show "\<exists>stats. computeStats adjust ch empty_equipment level rarity = Inr stats \<and>
               map fst stats = stat_names" .
qed

theorem computeStats_invalid_input_witness:
  "computeStats sample_adjust (sample_roster ! 0) empty_equipment 0 ''Rare'' = Inl InvalidInput \<and>
   computeStats sample_adjust (sample_roster ! 0) empty_equipment 100 ''Rare'' = Inl InvalidInput \<and>
   computeStats sample_adjust (sample_roster ! 0) empty_equipment 50 ''Mythic'' = Inl InvalidInput \<and>
   (\<exists>stats. computeStats sample_adjust (sample_roster ! 0) empty_equipment 50 ''Rare'' = Inr stats)"
proof -
  have a: "computeStats sample_adjust (sample_roster ! 0) empty_equipment 0 ''Rare'' = Inl InvalidInput"
    using computeStats_invalid_input [of 0 "''Rare''" sample_adjust "sample_roster ! 0" empty_equipment]
    by simp
  have b: "computeStats sample_adjust (sample_roster ! 0) empty_equipment 100 ''Rare'' = Inl InvalidInput"
    using computeStats_invalid_input [of 100 "''Rare''" sample_adjust "sample_roster ! 0" empty_equipment]
    by simp
  have c: "computeStats sample_adjust (sample_roster ! 0) empty_equipment 50 ''Mythic'' = Inl InvalidInput"
    using computeStats_invalid_input [of 50 "''Mythic''" sample_adjust "sample_roster ! 0" empty_equipment]
    by (simp add: rarity_tiers_def)
  have "\<exists>stats. computeStats sample_adjust (sample_roster ! 0) empty_equipment 50 ''Rare'' = Inr stats \<and>
          map fst stats = stat_names"
    using computeStats_invalid_input [of 50 "''Rare''" sample_adjust "sample_roster ! 0" empty_equipment]
    by (simp add: rarity_tiers_def)
  then have d: "\<exists>stats. computeStats sample_adjust (sample_roster ! 0) empty_equipment 50 ''Rare'' = Inr stats"
    by blast
  from a b c d show ?thesis by simp
qed

end
